theory Spec2Isabelle
  imports Complex_Main "HOL-Library.Sublist"
begin

section \<open>Strings and exceptions\<close>

text \<open>
  A Python string is modelled as an Isabelle string: a list of characters, each standing
  for one code point in the range 0..255. Python exceptions are values; every constructor
  below is a subclass of \<^verbatim>\<open>Exception\<close>, so an \<^verbatim>\<open>except Exception\<close> clause
  (and a bare \<^verbatim>\<open>except\<close>) catches all of them. A computation that may raise returns
  a sum, \<open>Inl\<close> the exception.
\<close>

datatype exn =
    ValueError string
  | AttributeError string
  | TypeError string
  | OverflowError string
  | KeyError string
  | RequestException string

fun str_of_exn :: "exn \<Rightarrow> string" where
  "str_of_exn (ValueError m) = m"
| "str_of_exn (AttributeError m) = m"
| "str_of_exn (TypeError m) = m"
| "str_of_exn (OverflowError m) = m"
| "str_of_exn (KeyError m) = m"
| "str_of_exn (RequestException m) = m"

text \<open>\<^verbatim>\<open>str.lower()\<close> on code points 0..255: the letters A-Z and the upper-case letters
  of Latin-1 (0xC0-0xDE without the multiplication sign 0xD7) move up by 32.\<close>

definition upper_chars :: string where
  "upper_chars = ''ABCDEFGHIJKLMNOPQRSTUVWXYZ'' @
     [CHR 0xC0, CHR 0xC1, CHR 0xC2, CHR 0xC3, CHR 0xC4, CHR 0xC5, CHR 0xC6, CHR 0xC7,
      CHR 0xC8, CHR 0xC9, CHR 0xCA, CHR 0xCB, CHR 0xCC, CHR 0xCD, CHR 0xCE, CHR 0xCF,
      CHR 0xD0, CHR 0xD1, CHR 0xD2, CHR 0xD3, CHR 0xD4, CHR 0xD5, CHR 0xD6,
      CHR 0xD8, CHR 0xD9, CHR 0xDA, CHR 0xDB, CHR 0xDC, CHR 0xDD, CHR 0xDE]"

definition lower_chars :: string where
  "lower_chars = ''abcdefghijklmnopqrstuvwxyz'' @
     [CHR 0xE0, CHR 0xE1, CHR 0xE2, CHR 0xE3, CHR 0xE4, CHR 0xE5, CHR 0xE6, CHR 0xE7,
      CHR 0xE8, CHR 0xE9, CHR 0xEA, CHR 0xEB, CHR 0xEC, CHR 0xED, CHR 0xEE, CHR 0xEF,
      CHR 0xF0, CHR 0xF1, CHR 0xF2, CHR 0xF3, CHR 0xF4, CHR 0xF5, CHR 0xF6,
      CHR 0xF8, CHR 0xF9, CHR 0xFA, CHR 0xFB, CHR 0xFC, CHR 0xFD, CHR 0xFE]"

definition lower_char :: "char \<Rightarrow> char" where
  "lower_char c = (case map_of (zip upper_chars lower_chars) c of Some l \<Rightarrow> l | None \<Rightarrow> c)"

definition lower :: "string \<Rightarrow> string" where
  "lower s = map lower_char s"

text \<open>The substring test \<^verbatim>\<open>sub in s\<close> of Python strings.\<close>

fun str_in :: "string \<Rightarrow> string \<Rightarrow> bool" where
  "str_in sub [] = (sub = [])"
| "str_in sub (c # cs) = (prefix sub (c # cs) \<or> str_in sub cs)"

section \<open>The host registry\<close>

text \<open>\<^verbatim>\<open>get_supported_hosts\<close>, stored in \<^verbatim>\<open>self.supported_hosts\<close> by the constructor.\<close>

definition get_supported_hosts :: "string list" where
  "get_supported_hosts =
     [''uploaded.net'', ''rapidgator.net'', ''nitroflare.com'',
      ''katfile.com'', ''uptobox.com'', ''1fichier.com'',
      ''filerio.com'', ''turbobit.net'', ''userupload.net'',
      ''ddownload.com'', ''dropapk.to'', ''k2s.cc'',
      ''keep2share.cc'', ''filefactory.com'', ''oboom.com'',
      ''rapidrar.com'', ''file-up.org'', ''uploadgig.com'']"

text \<open>The test \<^verbatim>\<open>any(host in hostname for host in self.supported_hosts)\<close>, written out
  twice in the source (lines 56 and 80).\<close>

definition any_host_in :: "string \<Rightarrow> bool" where
  "any_host_in hostname = list_ex (\<lambda>host. str_in host hostname) get_supported_hosts"

section \<open>The URL pattern and \<^verbatim>\<open>re.findall\<close>\<close>

text \<open>
  The fragment of regular expressions the pattern of line 48 is written in: a literal
  string, a greedy optional group, and a greedy repetition of a negated character class.
  \<open>rx_ends r inp\<close> lists the inputs left after each way \<open>r\<close> matches a prefix of
  \<open>inp\<close>, in the order a backtracking matcher tries them; the match Python reports is
  the first.
\<close>

datatype regex =
    Chars string
  | Seq regex regex
  | Opt regex
  | Plus_not "char list"
  | Star_not "char list"

fun rx_ends :: "regex \<Rightarrow> string \<Rightarrow> string list" where
  "rx_ends (Chars s) inp = (if prefix s inp then [drop (length s) inp] else [])"
| "rx_ends (Seq a b) inp = concat (map (rx_ends b) (rx_ends a inp))"
| "rx_ends (Opt a) inp = rx_ends a inp @ [inp]"
| "rx_ends (Plus_not ex) inp =
     map (\<lambda>k. drop k inp) (rev [1 ..< Suc (length (takeWhile (\<lambda>c. c \<notin> set ex) inp))])"
| "rx_ends (Star_not ex) inp =
     map (\<lambda>k. drop k inp) (rev [0 ..< Suc (length (takeWhile (\<lambda>c. c \<notin> set ex) inp))])"

text \<open>The characters \<^verbatim>\<open>\s\<close> matches among the code points 0..255, and the class
  \<^verbatim>\<open>[^\s<>"\'(){}[\]]\<close> as the list of characters it excludes.\<close>

definition whitespace :: "char list" where
  "whitespace = [CHR 0x09, CHR 0x0A, CHR 0x0B, CHR 0x0C, CHR 0x0D,
                 CHR 0x1C, CHR 0x1D, CHR 0x1E, CHR 0x1F, CHR 0x20, CHR 0x85, CHR 0xA0]"

definition url_excluded :: "char list" where
  "url_excluded = whitespace @ ''<>'' @ [CHR 0x22, CHR 0x27] @ ''(){}[]''"

definition url_pattern :: regex where
  "url_pattern =
     Seq (Chars ''http'') (Seq (Opt (Chars ''s'')) (Seq (Chars ''://'')
       (Seq (Plus_not url_excluded) (Opt (Seq (Chars ''/'') (Star_not url_excluded))))))"

definition url_match :: "string \<Rightarrow> nat option" where
  "url_match inp =
     (case rx_ends url_pattern inp of
        [] \<Rightarrow> None
      | rest # _ \<Rightarrow> Some (length inp - length rest))"

text \<open>\<^verbatim>\<open>re.findall(url_pattern, text)\<close>: the matches from left to right, each search
  starting where the previous match ended. The pattern has no capturing group, so each
  element is the whole match.\<close>

function findall_urls :: "string \<Rightarrow> string list" where
  "findall_urls [] = []"
| "findall_urls (c # cs) =
     (case url_match (c # cs) of
        None \<Rightarrow> findall_urls cs
      | Some m \<Rightarrow> take m (c # cs) # findall_urls (drop m (c # cs)))"
  by pat_completeness auto
termination
proof (relation "measure length")
  fix c cs m
  assume a: "url_match (c # cs) = Some m"
  have len: "r \<in> set (rx_ends p inp) \<Longrightarrow> length r \<le> length inp" for r p inp
  proof (induction p arbitrary: inp r)
    case (Seq a b)
    then obtain k where "k \<in> set (rx_ends a inp)" "r \<in> set (rx_ends b k)" by auto
    with Seq.IH show ?case by (meson le_trans)
  next
    case (Opt a)
    then show ?case by auto
  qed (auto split: if_splits)
  from a obtain rest rs where rs: "rx_ends url_pattern (c # cs) = rest # rs"
    and m: "m = length (c # cs) - length rest"
    by (auto simp: url_match_def split: list.splits)
  from rs have "rest \<in> set (rx_ends url_pattern (c # cs))" by simp
  then have "c = CHR ''h''" and "rest \<in> set (rx_ends (Seq (Chars ''ttp'') (Seq (Opt (Chars ''s''))
      (Seq (Chars ''://'') (Seq (Plus_not url_excluded)
        (Opt (Seq (Chars ''/'') (Star_not url_excluded))))))) cs)"
    by (auto simp: url_pattern_def split: if_splits)
  from len[OF this(2)] m have "0 < m" by simp
  then show "(drop m (c # cs), c # cs) \<in> measure length" by simp
qed auto

section \<open>\<^verbatim>\<open>urlparse(link).hostname\<close>\<close>

text \<open>
  \<^verbatim>\<open>urllib.parse\<close> belongs to the standard library, not to this program, so the
  program's functions take the computation \<^verbatim>\<open>urlparse(link).hostname\<close> as a parameter:
  it raises, returns \<^verbatim>\<open>None\<close>, or returns a host name.
\<close>

datatype hostname_result = Raises exn | NoHostname | Hostname string

type_synonym url_parser = "string \<Rightarrow> hostname_result"

text \<open>
  A reference instance for concrete links: \<^verbatim>\<open>urlsplit\<close> as in CPython 3.10 (tab, CR and
  LF removed; the scheme split off; the authority taken up to the first of
  \<^verbatim>\<open>/ ? #\<close>; \<^verbatim>\<open>ValueError\<close> on an unbalanced bracket) followed by the
  \<^verbatim>\<open>hostname\<close> property. The check of the authority under NFKC normalisation never
  raises on code points 0..255. Later releases also strip leading control characters and
  validate a bracketed host, which changes nothing on the links evaluated below.
\<close>

definition scheme_chars :: "char list" where
  "scheme_chars = ''abcdefghijklmnopqrstuvwxyz'' @ ''ABCDEFGHIJKLMNOPQRSTUVWXYZ'' @
                  ''0123456789'' @ ''+-.''"

definition strip_scheme :: "string \<Rightarrow> string" where
  "strip_scheme url =
     (let pre = takeWhile (\<lambda>c. c \<noteq> CHR '':'') url in
      if CHR '':'' \<in> set url \<and> pre \<noteq> [] \<and> list_all (\<lambda>c. c \<in> set scheme_chars) pre
      then drop (Suc (length pre)) url
      else url)"

definition urlsplit_netloc :: "string \<Rightarrow> exn + string" where
  "urlsplit_netloc link =
     (let url = strip_scheme (filter (\<lambda>c. c \<notin> set [CHR 0x09, CHR 0x0D, CHR 0x0A]) link) in
      if take 2 url = ''//'' then
        (let netloc = takeWhile (\<lambda>c. c \<notin> set ''/?#'') (drop 2 url) in
         if (CHR ''['' \<in> set netloc \<and> CHR '']'' \<notin> set netloc) \<or>
            (CHR '']'' \<in> set netloc \<and> CHR ''['' \<notin> set netloc)
         then Inl (ValueError ''Invalid IPv6 URL'')
         else Inr netloc)
      else Inr [])"

definition hostinfo_hostname :: "string \<Rightarrow> string" where
  "hostinfo_hostname netloc =
     (let hostinfo = rev (takeWhile (\<lambda>c. c \<noteq> CHR ''@'') (rev netloc)) in
      if CHR ''['' \<in> set hostinfo
      then takeWhile (\<lambda>c. c \<noteq> CHR '']'') (tl (dropWhile (\<lambda>c. c \<noteq> CHR ''['') hostinfo))
      else takeWhile (\<lambda>c. c \<noteq> CHR '':'') hostinfo)"

definition urlparse_hostname :: url_parser where
  "urlparse_hostname link =
     (case urlsplit_netloc link of
        Inl e \<Rightarrow> Raises e
      | Inr netloc \<Rightarrow>
          (let hostname = hostinfo_hostname netloc in
           if hostname = [] then NoHostname
           else Hostname (lower (takeWhile (\<lambda>c. c \<noteq> CHR ''%'') hostname) @
                          dropWhile (\<lambda>c. c \<noteq> CHR ''%'') hostname)))"

section \<open>The scraper\<close>

text \<open>The expression \<^verbatim>\<open>urlparse(url).hostname.lower()\<close> of lines 55 and 68-69: the
  parser may raise, and \<^verbatim>\<open>None.lower()\<close> raises \<^verbatim>\<open>AttributeError\<close>.\<close>

definition none_has_no_lower :: string where
  "none_has_no_lower =
     [CHR 0x27] @ ''NoneType'' @ [CHR 0x27] @ '' object has no attribute '' @
     [CHR 0x27] @ ''lower'' @ [CHR 0x27]"

definition hostname_lower :: "url_parser \<Rightarrow> string \<Rightarrow> exn + string" where
  "hostname_lower up url =
     (case up url of
        Raises e \<Rightarrow> Inl e
      | NoHostname \<Rightarrow> Inl (AttributeError none_has_no_lower)
      | Hostname h \<Rightarrow> Inr (lower h))"

text \<open>\<^verbatim>\<open>extract_links_from_text\<close>: the loop of lines 53-59 over the matches, its bare
  \<^verbatim>\<open>except: continue\<close> dropping a match whose host name cannot be read. The result is
  \<^verbatim>\<open>list(set(valid_links))\<close>, whose order Python leaves open: the model returns the set.\<close>

fun extract_loop :: "url_parser \<Rightarrow> string list \<Rightarrow> string list \<Rightarrow> string list" where
  "extract_loop up [] valid_links = valid_links"
| "extract_loop up (url # urls) valid_links =
     (case hostname_lower up url of
        Inl e \<Rightarrow> extract_loop up urls valid_links
      | Inr hostname \<Rightarrow>
          if any_host_in hostname
          then extract_loop up urls (valid_links @ [url])
          else extract_loop up urls valid_links)"

definition extract_links_from_text :: "url_parser \<Rightarrow> string \<Rightarrow> string set" where
  "extract_links_from_text up text = set (extract_loop up (findall_urls text) [])"

text \<open>The dictionary \<^verbatim>\<open>validate_link\<close> returns: \<^verbatim>\<open>host_type\<close> is set on the valid
  branch only, \<^verbatim>\<open>error\<close> on the invalid one.\<close>

record validation =
  url :: string
  host :: string
  valid :: bool
  supported :: bool
  host_type :: "string option"
  error :: "string option"

text \<open>The body of the \<^verbatim>\<open>try\<close> block of \<^verbatim>\<open>validate_link\<close> (lines 68-84).\<close>

definition validate_link_try :: "url_parser \<Rightarrow> string \<Rightarrow> exn + validation" where
  "validate_link_try up link =
     (case hostname_lower up link of
        Inl e \<Rightarrow> Inl e
      | Inr hostname \<Rightarrow>
          Inr \<lparr>url = link, host = hostname, valid = True,
               supported = any_host_in hostname,
               host_type = Some (if any_host_in hostname then hostname else ''unknown''),
               error = None\<rparr>)"

text \<open>\<^verbatim>\<open>validate_link\<close>: the \<^verbatim>\<open>try\<close> block and its \<^verbatim>\<open>except Exception\<close> handler
  (lines 86-93). The result is a sum so that what the function raises is part of it.\<close>

definition validate_link :: "url_parser \<Rightarrow> string \<Rightarrow> exn + validation" where
  "validate_link up link =
     (case validate_link_try up link of
        Inr info \<Rightarrow> Inr info
      | Inl e \<Rightarrow>
          Inr \<lparr>url = link, host = ''invalid'', valid = False, supported = False,
               host_type = None, error = Some (str_of_exn e)\<rparr>)"

section \<open>JSON values, outcomes and effects\<close>

text \<open>
  What \<^verbatim>\<open>response.json()\<close> returns: a JSON value as Python reads it. A float is given
  by the rational it denotes (infinities and NaN behave like any non-zero float in what
  follows). An object is its list of key-value pairs.
\<close>

datatype json =
    JNull
  | JBool bool
  | JInt int
  | JFloat rat
  | JStr string
  | JArr "json list"
  | JObj "(string \<times> json) list"

definition quoted :: "string \<Rightarrow> string" where
  "quoted s = [CHR 0x27] @ s @ [CHR 0x27]"

fun type_name :: "json \<Rightarrow> string" where
  "type_name JNull = ''NoneType''"
| "type_name (JBool b) = ''bool''"
| "type_name (JInt n) = ''int''"
| "type_name (JFloat q) = ''float''"
| "type_name (JStr s) = ''str''"
| "type_name (JArr xs) = ''list''"
| "type_name (JObj d) = ''dict''"

text \<open>\<^verbatim>\<open>x.get(key, default)\<close>: defined on a dictionary, \<^verbatim>\<open>AttributeError\<close> on any
  other JSON value.\<close>

fun py_get :: "json \<Rightarrow> string \<Rightarrow> json \<Rightarrow> exn + json" where
  "py_get (JObj d) k dflt = Inr (case map_of d k of None \<Rightarrow> dflt | Some v \<Rightarrow> v)"
| "py_get j k dflt =
     Inl (AttributeError (quoted (type_name j) @ '' object has no attribute '' @ quoted ''get''))"

text \<open>The truth value Python gives a JSON value in \<^verbatim>\<open>if size\<close>.\<close>

fun truthy :: "json \<Rightarrow> bool" where
  "truthy JNull = False"
| "truthy (JBool b) = b"
| "truthy (JInt n) = (n \<noteq> 0)"
| "truthy (JFloat q) = (q \<noteq> 0)"
| "truthy (JStr s) = (s \<noteq> [])"
| "truthy (JArr xs) = (xs \<noteq> [])"
| "truthy (JObj d) = (d \<noteq> [])"

text \<open>The outcome dictionaries of \<^verbatim>\<open>unlock_with_alldebrid\<close> and
  \<^verbatim>\<open>process_links_batch\<close>. A key the dictionary does not have is \<open>None\<close>. The keys
  \<^verbatim>\<open>"error"\<close> and \<^verbatim>\<open>"host"\<close> are the fields \<open>err\<close> and \<open>host_label\<close>, the record of
  \<^verbatim>\<open>validate_link\<close> having taken their names.\<close>

record outcome =
  success :: bool
  data :: "json option"
  err :: "json option"
  original_link :: string
  host_label :: "string option"

text \<open>
  The effects a claim speaks of are kept in a trace: the progress line that opens the
  processing of link number \<open>i\<close> (line 145), a request sent to the unlocking service with
  its key and link (line 113), and a pause of so many seconds (line 185).
  The service is a parameter: from the trace so far, the key and the link it gives what
  \<^verbatim>\<open>requests.post(...)\<close> followed by \<^verbatim>\<open>response.json()\<close> does, an exception or the
  decoded body.
\<close>

datatype event = Progress nat | NetCall string string | Sleep nat

datatype reply = Fails exn | Body json

type_synonym service = "event list \<Rightarrow> string \<Rightarrow> string \<Rightarrow> reply"

text \<open>The truth value of \<^verbatim>\<open>self.alldebrid_api_key\<close>: false for \<^verbatim>\<open>None\<close> and for the
  empty string.\<close>

definition has_api_key :: "string option \<Rightarrow> bool" where
  "has_api_key api_key = (case api_key of None \<Rightarrow> False | Some k \<Rightarrow> k \<noteq> [])"

text \<open>The \<^verbatim>\<open>try\<close> block of \<^verbatim>\<open>unlock_with_alldebrid\<close> (lines 107-127).\<close>

definition unlock_try :: "service \<Rightarrow> string \<Rightarrow> string \<Rightarrow> event list \<Rightarrow> (exn + outcome) \<times> event list" where
  "unlock_try svc key link tr =
     (let tr' = tr @ [NetCall key link] in
      case svc tr key link of
        Fails e \<Rightarrow> (Inl e, tr')
      | Body body \<Rightarrow>
          (case py_get body ''status'' JNull of
             Inl e \<Rightarrow> (Inl e, tr')
           | Inr status \<Rightarrow>
               if status = JStr ''success'' then
                 (case py_get body ''data'' JNull of
                    Inl e \<Rightarrow> (Inl e, tr')
                  | Inr d \<Rightarrow>
                      (Inr \<lparr>success = True, data = Some d, err = None,
                            original_link = link, host_label = None\<rparr>, tr'))
               else
                 (case py_get body ''error'' (JStr ''Unknown error'') of
                    Inl e \<Rightarrow> (Inl e, tr')
                  | Inr msg \<Rightarrow>
                      (Inr \<lparr>success = False, data = None, err = Some msg,
                            original_link = link, host_label = None\<rparr>, tr'))))"

text \<open>\<^verbatim>\<open>unlock_with_alldebrid\<close>: the key test of lines 99-104, the \<^verbatim>\<open>try\<close> block, and
  the handler of lines 129-134.\<close>

definition unlock_with_alldebrid ::
  "service \<Rightarrow> string option \<Rightarrow> string \<Rightarrow> event list \<Rightarrow> (exn + outcome) \<times> event list" where
  "unlock_with_alldebrid svc api_key link tr =
     (if \<not> has_api_key api_key then
        (Inr \<lparr>success = False, data = None,
              err = Some (JStr ''No AllDebrid API key provided''),
              original_link = link, host_label = None\<rparr>, tr)
      else
        (case unlock_try svc (the api_key) link tr of
           (Inr r, tr') \<Rightarrow> (Inr r, tr')
         | (Inl e, tr') \<Rightarrow>
             (Inr \<lparr>success = False, data = None, err = Some (JStr (str_of_exn e)),
                   original_link = link, host_label = None\<rparr>, tr')))"

text \<open>\<^verbatim>\<open>size / (1024 * 1024) if size else 0\<close> (lines 167 and 280): true division raises
  \<^verbatim>\<open>TypeError\<close> on a string, list or dictionary, and \<^verbatim>\<open>OverflowError\<close> on an integer
  whose quotient rounds beyond the largest double.\<close>

definition size_mb :: "json \<Rightarrow> exn + rat" where
  "size_mb sz =
     (if truthy sz then
        (case sz of
           JInt n \<Rightarrow>
             if 2 ^ 1044 - 2 ^ 990 \<le> \<bar>n\<bar>
             then Inl (OverflowError ''integer division result too large for a float'')
             else Inr (of_int n / 1048576)
         | JFloat q \<Rightarrow> Inr (q / 1048576)
         | JBool b \<Rightarrow> Inr (1 / 1048576)
         | _ \<Rightarrow> Inl (TypeError (''unsupported operand type(s) for /: '' @
                    quoted (type_name sz) @ '' and '' @ quoted ''int'')))
      else Inr 0)"

text \<open>What the progress output of lines 163-171 raises, if anything: it reads the
  payload of a successful outcome with \<^verbatim>\<open>get\<close> and computes its size in megabytes.\<close>

definition show_unlock_result :: "outcome \<Rightarrow> exn option" where
  "show_unlock_result unlock_result =
     (if success unlock_result then
        (let d = (case data unlock_result of None \<Rightarrow> JObj [] | Some v \<Rightarrow> v) in
         case py_get d ''filename'' (JStr ''Unknown'') of
           Inl e \<Rightarrow> Some e
         | Inr filename \<Rightarrow>
             (case py_get d ''size'' (JInt 0) of
                Inl e \<Rightarrow> Some e
              | Inr sz \<Rightarrow> (case size_mb sz of Inl e \<Rightarrow> Some e | Inr mb \<Rightarrow> None)))
      else None)"

text \<open>The rate limiting of lines 184-185.\<close>

definition pace :: "nat \<Rightarrow> nat \<Rightarrow> event list \<Rightarrow> event list" where
  "pace n i tr = (if i < n then tr @ [Sleep 1] else tr)"

text \<open>
  The loop of \<^verbatim>\<open>process_links_batch\<close> (lines 144-185): \<open>n\<close> is \<^verbatim>\<open>len(links)\<close>, \<open>i\<close>
  the counter of \<^verbatim>\<open>enumerate(links, 1)\<close>. The loop body has no \<^verbatim>\<open>try\<close>: the
  \<^verbatim>\<open>urlparse\<close> call inside the progress line and the progress output after a resolution
  raise out of the function.
\<close>

fun batch_loop ::
  "url_parser \<Rightarrow> service \<Rightarrow> string option \<Rightarrow> nat \<Rightarrow> nat \<Rightarrow> string list \<Rightarrow> outcome list \<Rightarrow>
   event list \<Rightarrow> (exn + outcome list) \<times> event list" where
  "batch_loop up svc api_key n i [] results tr = (Inr results, tr)"
| "batch_loop up svc api_key n i (link # links) results tr =
     (case up link of
        Raises e \<Rightarrow> (Inl e, tr)
      | _ \<Rightarrow>
          (let tr1 = tr @ [Progress i] in
           case validate_link up link of
             Inl e \<Rightarrow> (Inl e, tr1)
           | Inr validation \<Rightarrow>
               if \<not> valid validation then
                 batch_loop up svc api_key n (Suc i) links
                   (results @ [\<lparr>success = False, data = None,
                                err = Some (JStr ''Invalid link format''),
                                original_link = link, host_label = None\<rparr>]) tr1
               else if supported validation \<and> has_api_key api_key then
                 (case unlock_with_alldebrid svc api_key link tr1 of
                    (Inl e, tr2) \<Rightarrow> (Inl e, tr2)
                  | (Inr unlock_result, tr2) \<Rightarrow>
                      (case show_unlock_result unlock_result of
                         Some e \<Rightarrow> (Inl e, tr2)
                       | None \<Rightarrow>
                           batch_loop up svc api_key n (Suc i) links
                             (results @ [unlock_result]) (pace n i tr2)))
               else
                 batch_loop up svc api_key n (Suc i) links
                   (results @ [\<lparr>success = False, data = None,
                                err = Some (JStr (if \<not> has_api_key api_key
                                                  then ''No AllDebrid API key''
                                                  else ''Unsupported host'')),
                                original_link = link,
                                host_label = Some (host validation)\<rparr>])
                   (pace n i tr1)))"

definition process_links_batch ::
  "url_parser \<Rightarrow> service \<Rightarrow> string option \<Rightarrow> string list \<Rightarrow> event list \<Rightarrow>
   (exn + outcome list) \<times> event list" where
  "process_links_batch up svc api_key links tr =
     batch_loop up svc api_key (length links) 1 links [] tr"

section \<open>The summary of \<^verbatim>\<open>display_results\<close>\<close>

text \<open>What the output for one result raises, if anything. A success (lines 277-284)
  reads the payload as above and slices its \<^verbatim>\<open>link\<close> to 60 characters, which a
  string or a list allows. A failure (lines 288-290) parses the original link.\<close>

definition show_success :: "outcome \<Rightarrow> exn option" where
  "show_success result =
     (let d = (case data result of None \<Rightarrow> JObj [] | Some v \<Rightarrow> v) in
      case py_get d ''filename'' (JStr ''Unknown file'') of
        Inl e \<Rightarrow> Some e
      | Inr filename \<Rightarrow>
          (case py_get d ''size'' (JInt 0) of
             Inl e \<Rightarrow> Some e
           | Inr sz \<Rightarrow>
               (case size_mb sz of
                  Inl e \<Rightarrow> Some e
                | Inr mb \<Rightarrow>
                    (case py_get d ''link'' (JStr ''No direct link'') of
                       Inl e \<Rightarrow> Some e
                     | Inr (JStr l) \<Rightarrow> None
                     | Inr (JArr l) \<Rightarrow> None
                     | Inr (JObj l) \<Rightarrow> Some (TypeError (''unhashable type: '' @ quoted ''slice''))
                     | Inr v \<Rightarrow> Some (TypeError (quoted (type_name v) @
                                  '' object is not subscriptable''))))))"

definition show_failure :: "url_parser \<Rightarrow> outcome \<Rightarrow> exn option" where
  "show_failure up result =
     (if original_link result \<noteq> ''Unknown'' then
        (case up (original_link result) of Raises e \<Rightarrow> Some e | _ \<Rightarrow> None)
      else None)"

text \<open>The loop of lines 274-293 with its two counters.\<close>

fun display_loop :: "url_parser \<Rightarrow> outcome list \<Rightarrow> nat \<Rightarrow> nat \<Rightarrow> exn + nat \<times> nat" where
  "display_loop up [] successful failed = Inr (successful, failed)"
| "display_loop up (result # results) successful failed =
     (if success result then
        (case show_success result of
           Some e \<Rightarrow> Inl e
         | None \<Rightarrow> display_loop up results (successful + 1) failed)
      else
        (case show_failure up result of
           Some e \<Rightarrow> Inl e
         | None \<Rightarrow> display_loop up results successful (failed + 1)))"

text \<open>
  The arithmetic of line 297. The true division of the two counters and the product with
  100 are IEEE doubles, each the exact result rounded to the nearest double, ties to the
  even one; \<^verbatim>\<open>:.1f\<close> rounds the double to one decimal, ties to the even digit. A double
  is given by the rational it denotes: \<open>to_double\<close> rounds a rational from 0 up to the
  largest double to 53 significant bits, or to a multiple of \<open>2 ^ -1074\<close> where doubles
  are subnormal.
\<close>

fun bit_length :: "nat \<Rightarrow> nat" where
  "bit_length n = (if n = 0 then 0 else Suc (bit_length (n div 2)))"

definition floor_log2 :: "rat \<Rightarrow> int" where
  "floor_log2 x =
     (if 1 \<le> x then int (bit_length (nat \<lfloor>x\<rfloor>)) - 1
      else - int (bit_length (nat \<lceil>1 / x\<rceil> - 1)))"

definition pow2 :: "int \<Rightarrow> rat" where
  "pow2 q = (if 0 \<le> q then 2 ^ nat q else 1 / 2 ^ nat (- q))"

definition round_half_even :: "rat \<Rightarrow> int" where
  "round_half_even x =
     (let f = \<lfloor>x\<rfloor>; d = x - of_int f in
      if d < 1 / 2 then f
      else if 1 / 2 < d then f + 1
      else if even f then f else f + 1)"

definition to_double :: "rat \<Rightarrow> rat" where
  "to_double x =
     (if x \<le> 0 then 0
      else (let u = pow2 (max (floor_log2 x - 52) (- 1074))
            in of_int (round_half_even (x / u)) * u))"

fun digits :: "nat \<Rightarrow> string" where
  "digits n =
     (if n < 10 then [''0123456789'' ! n]
      else digits (n div 10) @ [''0123456789'' ! (n mod 10)])"

definition format_1f :: "rat \<Rightarrow> string" where
  "format_1f x =
     (let t = nat (round_half_even (x * 10))
      in digits (t div 10) @ ''.'' @ digits (t mod 10))"

text \<open>\<^verbatim>\<open>display_results\<close> returns nothing; what it computes is what its last two lines
  print. The model returns that: the two counters of line 296 and the text of the rate
  of line 297.\<close>

record summary =
  successful :: nat
  failed :: nat
  success_rate :: string

definition display_results :: "url_parser \<Rightarrow> outcome list \<Rightarrow> exn + summary" where
  "display_results up results =
     (case display_loop up results 0 0 of
        Inl e \<Rightarrow> Inl e
      | Inr (s, f) \<Rightarrow>
          Inr \<lparr>successful = s, failed = f,
               success_rate =
                 (if s + f > 0
                  then format_1f (to_double (to_double (of_nat s / of_nat (s + f)) * 100)) @ ''%''
                  else ''0%'')\<rparr>)"

section \<open>Definitions used in the statements\<close>

text \<open>The longest run of characters the class of the URL pattern accepts.\<close>

definition url_run :: "string \<Rightarrow> string" where
  "url_run s = takeWhile (\<lambda>c. c \<notin> set url_excluded) s"

text \<open>The host-support test as the specification words it (section 4.1): some registry
  entry is a substring of the lower-cased host name.\<close>

definition host_supported_spec :: "string \<Rightarrow> bool" where
  "host_supported_spec hostname =
     (\<exists>entry \<in> set get_supported_hosts. sublist entry (lower hostname))"






text \<open>Outcome exclusivity as the specification words it: exactly one of "success and
  payload present" and "failure and error message present" holds. A field is present
  when the dictionary has the key with a value other than \<^verbatim>\<open>None\<close>.\<close>

definition populated :: "json option \<Rightarrow> bool" where
  "populated field = (case field of None \<Rightarrow> False | Some v \<Rightarrow> v \<noteq> JNull)"

definition outcome_exclusive :: "outcome \<Rightarrow> bool" where
  "outcome_exclusive r =
     ((success r \<and> populated (data r)) \<noteq> (\<not> success r \<and> populated (err r)))"

text \<open>The output of \<^verbatim>\<open>display_results\<close> can be printed for a result.\<close>

definition printable :: "url_parser \<Rightarrow> outcome \<Rightarrow> bool" where
  "printable up result =
     (if success result then show_success result = None
      else show_failure up result = None)"

text \<open>Services for the examples: one that unlocks every link, one that times out on one
  link only, one whose success reply has no payload, one whose payload has no download
  link, and one whose failure reply has a null error.\<close>

definition unlocked_body :: json where
  "unlocked_body =
     JObj [(''status'', JStr ''success''),
           (''data'', JObj [(''filename'', JStr ''file.bin''), (''size'', JInt 1048576),
                            (''link'', JStr ''https://dl.example/file.bin'')])]"

definition unlocked_payload :: json where
  "unlocked_payload =
     JObj [(''filename'', JStr ''file.bin''), (''size'', JInt 1048576),
           (''link'', JStr ''https://dl.example/file.bin'')]"

definition svc_unlocks :: service where
  "svc_unlocks tr key link = Body unlocked_body"

definition svc_flaky :: service where
  "svc_flaky tr key link =
     (if link = ''http://uploaded.net/b'' then Fails (RequestException ''Read timed out.'')
      else Body unlocked_body)"

definition svc_no_data :: service where
  "svc_no_data tr key link = Body (JObj [(''status'', JStr ''success'')])"

definition svc_no_link :: service where
  "svc_no_link tr key link =
     Body (JObj [(''status'', JStr ''success''),
                 (''data'', JObj [(''filename'', JStr ''file.bin''), (''size'', JInt 1048576),
                                  (''link'', JNull)])])"

definition svc_null_error :: service where
  "svc_null_error tr key link = Body (JObj [(''status'', JStr ''error''), (''error'', JNull)])"

section \<open>The host test and the extractor\<close>

lemma str_in_sublist: "str_in sub s = sublist sub s"
  by (induction s) (auto simp: sublist_Cons_right)

lemma any_host_in_iff:
  "any_host_in hostname = (\<exists>entry\<in>set get_supported_hosts. sublist entry hostname)"
  by (simp add: any_host_in_def list_ex_iff str_in_sublist)

lemma any_host_in_lower: "any_host_in (lower h) = host_supported_spec h"
  by (simp add: any_host_in_iff host_supported_spec_def)

lemma extract_loop_set:
  "set (extract_loop up urls acc) =
     set acc \<union> {u \<in> set urls. \<exists>h. up u = Hostname h \<and> any_host_in (lower h)}"
  by (induction urls arbitrary: acc)
     (auto simp: hostname_lower_def split: hostname_result.splits sum.splits)

lemma extract_links_eq:
  "extract_links_from_text up s =
     {u \<in> set (findall_urls s). \<exists>h. up u = Hostname h \<and> host_supported_spec h}"
  by (simp add: extract_links_from_text_def extract_loop_set any_host_in_lower)

text \<open>The optional path group of the pattern never takes part in a match: the class
  before it accepts the slash, so the greedy run ends at an excluded character or at the
  end of the text. A match is the scheme followed by the longest run.\<close>

lemma slash_allowed: "CHR ''/'' \<notin> set url_excluded"
  by (simp add: url_excluded_def whitespace_def)

lemma no_slash_after_run:
  "\<not> prefix ''/'' (drop (length (takeWhile (\<lambda>c. c \<notin> set url_excluded) s)) s)"
proof
  let ?d = "dropWhile (\<lambda>c. c \<notin> set url_excluded) s"
  assume "prefix ''/'' (drop (length (takeWhile (\<lambda>c. c \<notin> set url_excluded) s)) s)"
  then have p: "prefix ''/'' ?d" by (simp add: dropWhile_eq_drop)
  then obtain t where d: "?d = CHR ''/'' # t" by (auto simp only: prefix_def append.simps)
  then have ne: "?d \<noteq> []" and "hd ?d = CHR ''/''" by (simp_all only: list.sel list.distinct not_False_eq_True)
  with hd_dropWhile[OF ne] slash_allowed show False by simp
qed

lemma rx_ends_Plus_not:
  "rx_ends (Plus_not ex) s =
     (let n = length (takeWhile (\<lambda>c. c \<notin> set ex) s) in
      if n = 0 then [] else drop n s # map (\<lambda>k. drop k s) (rev [1 ..< n]))"
  by (cases "length (takeWhile (\<lambda>c. c \<notin> set ex) s)") (simp_all add: Let_def)

lemma rx_ends_tail:
  "concat (map (rx_ends (Opt (Seq (Chars ''/'') (Star_not url_excluded))))
             (rx_ends (Plus_not url_excluded) s)) =
     (if url_run s = [] then []
      else drop (length (url_run s)) s #
           concat (map (rx_ends (Opt (Seq (Chars ''/'') (Star_not url_excluded))))
                    (map (\<lambda>k. drop k s) (rev [1 ..< length (url_run s)]))))"
  using no_slash_after_run[of s]
  by (simp add: rx_ends_Plus_not url_run_def Let_def del: rx_ends.simps(4,5))

lemma url_run_le: "length (url_run r) \<le> length r"
  by (simp add: url_run_def length_takeWhile_le)

lemma url_match_eq:
  "url_match inp =
     (if prefix ''https://'' inp \<and> url_run (drop 8 inp) \<noteq> []
      then Some (8 + length (url_run (drop 8 inp)))
      else if prefix ''http://'' inp \<and> url_run (drop 7 inp) \<noteq> []
      then Some (7 + length (url_run (drop 7 inp)))
      else None)"
proof -
  let ?T = "Seq (Plus_not url_excluded) (Opt (Seq (Chars ''/'') (Star_not url_excluded)))"
  have um: "url_match x =
     (case rx_ends (Seq (Chars ''http'') (Seq (Opt (Chars ''s'')) (Seq (Chars ''://'') ?T))) x of
        [] \<Rightarrow> None | rest # _ \<Rightarrow> Some (length x - length rest))" for x
    by (simp add: url_match_def url_pattern_def)
  show ?thesis
  proof (cases "prefix ''https://'' inp")
    case True
    then obtain r where inp: "inp = ''https://'' @ r" by (auto simp: prefix_def)
    show ?thesis unfolding um inp using url_run_le[of r]
      by (simp add: rx_ends_tail del: rx_ends.simps(4,5))
  next
    case False
    note nos = this
    show ?thesis
    proof (cases "prefix ''http://'' inp")
      case True
      then obtain r where inp: "inp = ''http://'' @ r" by (auto simp: prefix_def)
      show ?thesis unfolding um inp using url_run_le[of r]
        by (simp add: rx_ends_tail del: rx_ends.simps(4,5))
    next
      case False
      have e: "rx_ends (Seq (Chars ''http'') (Seq (Opt (Chars ''s'')) (Seq (Chars ''://'') ?T))) inp = []"
      proof (cases "prefix ''http'' inp")
        case True
        then obtain r where inp: "inp = ''http'' @ r" by (auto simp: prefix_def)
        from nos False show ?thesis unfolding inp
          by (auto simp del: rx_ends.simps(4,5) simp: prefix_def)
      next
        case False
        then show ?thesis by simp
      qed
      have "url_match inp = None" unfolding um e by simp
      with nos False show ?thesis by simp
    qed
  qed
qed


lemma url_match_prefix:
  "url_match inp = Some m \<Longrightarrow> prefix ''http://'' inp \<or> prefix ''https://'' inp"
  by (simp add: url_match_eq split: if_splits)

lemma findall_urls_no_scheme:
  "\<not> sublist ''http://'' s \<Longrightarrow> \<not> sublist ''https://'' s \<Longrightarrow> findall_urls s = []"
proof (induction s)
  case Nil
  then show ?case by simp
next
  case (Cons c cs)
  have "url_match (c # cs) = None"
  proof (cases "url_match (c # cs)")
    case (Some m)
    from url_match_prefix[OF Some] Cons.prems show ?thesis
      by auto
  qed simp
  moreover from Cons.prems have "\<not> sublist ''http://'' cs" "\<not> sublist ''https://'' cs"
    by (auto simp: sublist_Cons_right)
  ultimately show ?case using Cons.IH by simp
qed

lemma prefix_take_longer: "prefix p xs \<Longrightarrow> length p \<le> m \<Longrightarrow> prefix p (take m xs)"
  by (auto simp: prefix_def)

text \<open>Every match starts with the scheme in lower case, and stands in the text as it is
  returned.\<close>

lemma url_match_take_prefix:
  "url_match inp = Some m \<Longrightarrow>
   prefix ''http://'' (take m inp) \<or> prefix ''https://'' (take m inp)"
  by (auto simp: url_match_eq prefix_take_longer split: if_splits)

lemma findall_urls_scheme:
  "u \<in> set (findall_urls s) \<Longrightarrow> prefix ''http://'' u \<or> prefix ''https://'' u"
proof (induction s rule: findall_urls.induct)
  case 1
  then show ?case by simp
next
  case (2 c cs)
  show ?case
  proof (cases "url_match (c # cs)")
    case None
    with 2 show ?thesis by simp
  next
    case (Some m)
    with "2.prems" have "u = take m (c # cs) \<or> u \<in> set (findall_urls (drop m (c # cs)))"
      by simp
    then show ?thesis
    proof
      assume "u = take m (c # cs)"
      with url_match_take_prefix[OF Some] show ?thesis by simp
    next
      assume "u \<in> set (findall_urls (drop m (c # cs)))"
      with "2.IH"(2)[OF Some] show ?thesis by simp
    qed
  qed
qed

lemma findall_urls_sublist: "u \<in> set (findall_urls s) \<Longrightarrow> sublist u s"
proof (induction s rule: findall_urls.induct)
  case 1
  then show ?case by simp
next
  case (2 c cs)
  show ?case
  proof (cases "url_match (c # cs)")
    case None
    with 2 have "sublist u cs" by simp
    then show ?thesis by (simp add: sublist_Cons_right)
  next
    case (Some m)
    with "2.prems" have "u = take m (c # cs) \<or> u \<in> set (findall_urls (drop m (c # cs)))"
      by simp
    then show ?thesis
    proof
      assume "u = take m (c # cs)"
      then have "prefix u (c # cs)" by (simp add: take_is_prefix)
      then show ?thesis by (rule prefix_imp_sublist)
    next
      assume "u \<in> set (findall_urls (drop m (c # cs)))"
      with "2.IH"(2)[OF Some] have "sublist u (drop m (c # cs))" by simp
      moreover have "sublist (drop m (c # cs)) (c # cs)" by (rule sublist_drop)
      ultimately show ?thesis by (rule sublist_order.order.trans)
    qed
  qed
qed

section \<open>Claims about the host test, the validator and the extractor\<close>

text \<open>
  Claim C8. The host-support test is the same in the validator and in the extractor: the
  \<^verbatim>\<open>supported\<close> flag of a link whose host name is read, and the membership of a
  matched URL in the extractor's result, both hold exactly when some registry entry is
  a substring of the lower-cased host name. Host names that differ only in case are
  classified alike, and \<^verbatim>\<open>evil-rapidgator.net.attacker.com\<close> is supported, since it
  contains \<^verbatim>\<open>rapidgator.net\<close>.
\<close>

theorem C8_host_support_substring:
  "(\<forall>h. up link = Hostname h \<longrightarrow>
      (\<exists>v. validate_link up link = Inr v \<and> supported v = host_supported_spec h))
   \<and> (\<forall>h. u \<in> set (findall_urls s) \<and> up u = Hostname h \<longrightarrow>
      (u \<in> extract_links_from_text up s) = host_supported_spec h)
   \<and> (lower h1 = lower h2 \<longrightarrow> host_supported_spec h1 = host_supported_spec h2)
   \<and> host_supported_spec ''evil-rapidgator.net.attacker.com''"
proof (intro conjI allI impI)
  fix h assume "up link = Hostname h"
  then show "\<exists>v. validate_link up link = Inr v \<and> supported v = host_supported_spec h"
    by (simp add: validate_link_def validate_link_try_def hostname_lower_def any_host_in_lower)
next
  fix h assume "u \<in> set (findall_urls s) \<and> up u = Hostname h"
  then show "(u \<in> extract_links_from_text up s) = host_supported_spec h"
    by (simp add: extract_links_eq)
next
  assume "lower h1 = lower h2"
  then show "host_supported_spec h1 = host_supported_spec h2"
    by (simp add: host_supported_spec_def)
next
  have "any_host_in (lower ''evil-rapidgator.net.attacker.com'')" by code_simp
  then show "host_supported_spec ''evil-rapidgator.net.attacker.com''"
    by (simp only: any_host_in_lower)
qed

theorem C8_host_support_substring_witness:
  "(\<exists>v. validate_link (\<lambda>l. Hostname ''Evil-RapidGator.NET.Attacker.com'')
          ''http://Evil-RapidGator.NET.Attacker.com/f'' = Inr v \<and> supported v)
   \<and> host_supported_spec ''Evil-RapidGator.NET.Attacker.com''
   \<and> \<not> host_supported_spec ''rapidgator.example.com''"
proof -
  have l: "lower ''Evil-RapidGator.NET.Attacker.com'' = lower ''evil-rapidgator.net.attacker.com''"
    by code_simp
  have n: "\<not> any_host_in (lower ''rapidgator.example.com'')" by code_simp
  from C8_host_support_substring[of "\<lambda>l. Hostname ''Evil-RapidGator.NET.Attacker.com''"
      "''http://Evil-RapidGator.NET.Attacker.com/f''" "[]" "[]"
      "''Evil-RapidGator.NET.Attacker.com''" "''evil-rapidgator.net.attacker.com''"] l n
  show ?thesis by (auto simp: any_host_in_lower)
qed

lemma validate_link_total: "\<exists>v. validate_link up link = Inr v"
  by (simp add: validate_link_def split: sum.splits)

lemma validate_link_invalid:
  "(\<forall>h. up link \<noteq> Hostname h) \<Longrightarrow>
   \<exists>msg. validate_link up link =
     Inr \<lparr>url = link, host = ''invalid'', valid = False, supported = False,
          host_type = None, error = Some msg\<rparr>"
  by (cases "up link")
     (simp_all add: validate_link_def validate_link_try_def hostname_lower_def)

lemma validate_link_valid:
  "up link = Hostname h \<Longrightarrow>
   validate_link up link =
     Inr \<lparr>url = link, host = lower h, valid = True, supported = any_host_in (lower h),
          host_type = Some (if any_host_in (lower h) then lower h else ''unknown''),
          error = None\<rparr>"
  by (simp add: validate_link_def validate_link_try_def hostname_lower_def)

text \<open>
  Claim C4. For every string and whatever the parser does with it, \<^verbatim>\<open>validate_link\<close>
  returns a result and raises nothing. When the parser raises or finds no host name the
  result has \<^verbatim>\<open>valid = False\<close>, \<^verbatim>\<open>supported = False\<close> and the host
  \<^verbatim>\<open>"invalid"\<close>; a result that is not valid is of that kind. The empty string, the text
  \<^verbatim>\<open>not a url\<close> and a string of control and high characters are not valid.
\<close>

theorem C4_validate_link_never_raises:
  "(\<exists>v. validate_link up link = Inr v)
   \<and> ((\<forall>h. up link \<noteq> Hostname h) \<longrightarrow>
        (\<exists>msg. validate_link up link =
           Inr \<lparr>url = link, host = ''invalid'', valid = False, supported = False,
                host_type = None, error = Some msg\<rparr>))
   \<and> (\<forall>v. validate_link up link = Inr v \<and> \<not> valid v \<longrightarrow>
          \<not> supported v \<and> host v = ''invalid'' \<and> (\<forall>h. up link \<noteq> Hostname h))
   \<and> (\<exists>v. validate_link urlparse_hostname [] = Inr v \<and> \<not> valid v)
   \<and> (\<exists>v. validate_link urlparse_hostname ''not a url'' = Inr v \<and> \<not> valid v)
   \<and> (\<exists>v. validate_link urlparse_hostname [CHR 0x00, CHR 0xFF, CHR 0x1B, CHR 0x80] = Inr v
          \<and> \<not> valid v)"
proof (intro conjI)
  show "\<exists>v. validate_link up link = Inr v" by (rule validate_link_total)
  show "(\<forall>h. up link \<noteq> Hostname h) \<longrightarrow>
        (\<exists>msg. validate_link up link =
           Inr \<lparr>url = link, host = ''invalid'', valid = False, supported = False,
                host_type = None, error = Some msg\<rparr>)"
    using validate_link_invalid by blast
  show "\<forall>v. validate_link up link = Inr v \<and> \<not> valid v \<longrightarrow>
          \<not> supported v \<and> host v = ''invalid'' \<and> (\<forall>h. up link \<noteq> Hostname h)"
    by (cases "up link")
       (auto simp: validate_link_def validate_link_try_def hostname_lower_def)
  have e1: "urlparse_hostname [] = NoHostname" by code_simp
  have e2: "urlparse_hostname ''not a url'' = NoHostname" by code_simp
  have e3: "urlparse_hostname [CHR 0x00, CHR 0xFF, CHR 0x1B, CHR 0x80] = NoHostname"
    by code_simp
  from validate_link_invalid[of urlparse_hostname "[]"] e1
  show "\<exists>v. validate_link urlparse_hostname [] = Inr v \<and> \<not> valid v" by auto
  from validate_link_invalid[of urlparse_hostname "''not a url''"] e2
  show "\<exists>v. validate_link urlparse_hostname ''not a url'' = Inr v \<and> \<not> valid v" by auto
  from validate_link_invalid[of urlparse_hostname "[CHR 0x00, CHR 0xFF, CHR 0x1B, CHR 0x80]"] e3
  show "\<exists>v. validate_link urlparse_hostname [CHR 0x00, CHR 0xFF, CHR 0x1B, CHR 0x80] = Inr v
          \<and> \<not> valid v" by auto
qed

theorem C4_validate_link_never_raises_witness:
  "(\<exists>v. validate_link urlparse_hostname ''http://[::1'' = Inr v \<and> \<not> valid v
        \<and> \<not> supported v \<and> host v = ''invalid'')
   \<and> urlparse_hostname ''http://[::1'' = Raises (ValueError ''Invalid IPv6 URL'')"
proof -
  have e: "urlparse_hostname ''http://[::1'' = Raises (ValueError ''Invalid IPv6 URL'')"
    by code_simp
  then have "\<forall>h. urlparse_hostname ''http://[::1'' \<noteq> Hostname h" by simp
  with C4_validate_link_never_raises[of urlparse_hostname "''http://[::1''"] e
  show ?thesis by auto
qed

text \<open>
  Claim C7. \<^verbatim>\<open>extract_links_from_text\<close> returns the set of the matched URLs whose host
  name is read and supported; a match whose host name cannot be read is dropped without
  an error. The empty text gives the empty set, as does a text whose matches are all on
  unsupported hosts; a URL repeated three times is one element; in the mixed text of the
  specification only the URL on \<^verbatim>\<open>rapidgator.net\<close> is returned.
\<close>

theorem C7_extract_supported_matches:
  "extract_links_from_text up s =
     {u \<in> set (findall_urls s). \<exists>h. up u = Hostname h \<and> host_supported_spec h}
   \<and> extract_links_from_text up [] = {}
   \<and> ((\<forall>u \<in> set (findall_urls s). \<forall>h. up u = Hostname h \<longrightarrow> \<not> host_supported_spec h)
        \<longrightarrow> extract_links_from_text up s = {})
   \<and> extract_links_from_text urlparse_hostname
        ''see http://example.com/a and https://example.org/b'' = {}
   \<and> extract_links_from_text urlparse_hostname
        ''http://rapidgator.net/x http://rapidgator.net/x http://rapidgator.net/x''
        = {''http://rapidgator.net/x''}
   \<and> extract_links_from_text urlparse_hostname ''http:///rapidgator.net/x'' = {}
   \<and> extract_links_from_text urlparse_hostname
        ''visit http://example.com/file and http://rapidgator.net/x''
        = {''http://rapidgator.net/x''}"
proof (intro conjI)
  show "extract_links_from_text up s =
     {u \<in> set (findall_urls s). \<exists>h. up u = Hostname h \<and> host_supported_spec h}"
    by (rule extract_links_eq)
  show "extract_links_from_text up [] = {}"
    by (simp add: extract_links_from_text_def)
  show "(\<forall>u \<in> set (findall_urls s). \<forall>h. up u = Hostname h \<longrightarrow> \<not> host_supported_spec h)
        \<longrightarrow> extract_links_from_text up s = {}"
    by (auto simp: extract_links_eq)
  show "extract_links_from_text urlparse_hostname
        ''see http://example.com/a and https://example.org/b'' = {}"
    by code_simp
  show "extract_links_from_text urlparse_hostname
        ''http://rapidgator.net/x http://rapidgator.net/x http://rapidgator.net/x''
        = {''http://rapidgator.net/x''}"
    by code_simp
  show "extract_links_from_text urlparse_hostname ''http:///rapidgator.net/x'' = {}"
    by code_simp
  show "extract_links_from_text urlparse_hostname
        ''visit http://example.com/file and http://rapidgator.net/x''
        = {''http://rapidgator.net/x''}"
    by code_simp
qed

theorem C7_extract_supported_matches_witness:
  "extract_links_from_text urlparse_hostname ''mirror: https://example.org/b (old)'' = {}
   \<and> findall_urls ''mirror: https://example.org/b (old)'' = [''https://example.org/b'']"
proof -
  have f: "findall_urls ''mirror: https://example.org/b (old)'' = [''https://example.org/b'']"
    by code_simp
  have h: "urlparse_hostname ''https://example.org/b'' = Hostname ''example.org''"
    by code_simp
  have n: "\<not> any_host_in (lower ''example.org'')" by code_simp
  from C7_extract_supported_matches[of urlparse_hostname "''mirror: https://example.org/b (old)''"]
    f h n
  show ?thesis by (simp add: any_host_in_lower)
qed

text \<open>
  Claim C10. The URL pattern is matched case-sensitively. Every match, and so every
  extracted URL, starts with \<^verbatim>\<open>http://\<close> or \<^verbatim>\<open>https://\<close> in lower case and stands in
  the text as it is returned: a URL whose scheme has an upper-case letter is never
  returned. Hence the extractor returns the empty set for a text whose lower-case
  matches are all on unsupported hosts, whatever supported hosts it names behind an
  upper-case scheme, and in particular for a text in which neither \<^verbatim>\<open>http://\<close> nor
  \<^verbatim>\<open>https://\<close> occurs in lower case. The same URL with a lower-case scheme is
  extracted.
\<close>

theorem C10_uppercase_scheme_not_matched:
  "(\<not> sublist ''http://'' s \<and> \<not> sublist ''https://'' s \<longrightarrow> extract_links_from_text up s = {})
   \<and> extract_links_from_text up ''HTTP://rapidgator.net/x'' = {}
   \<and> extract_links_from_text up ''Https://rapidgator.net/x and hTTp://k2s.cc/y'' = {}
   \<and> extract_links_from_text urlparse_hostname ''http://rapidgator.net/x''
        = {''http://rapidgator.net/x''}
   \<and> (\<forall>u \<in> extract_links_from_text up s.
         (prefix ''http://'' u \<or> prefix ''https://'' u) \<and> sublist u s \<and>
         (\<exists>h. up u = Hostname h \<and> host_supported_spec h))
   \<and> ((\<forall>u. sublist u s \<and> (prefix ''http://'' u \<or> prefix ''https://'' u) \<longrightarrow>
             \<not> (\<exists>h. up u = Hostname h \<and> host_supported_spec h))
        \<longrightarrow> extract_links_from_text up s = {})
   \<and> (\<forall>u \<in> set (findall_urls s).
         (prefix ''http://'' u \<or> prefix ''https://'' u) \<and> sublist u s)
   \<and> ((\<forall>u \<in> set (findall_urls s). \<forall>h. up u = Hostname h \<longrightarrow> \<not> host_supported_spec h)
        \<longrightarrow> extract_links_from_text up s = {})
   \<and> findall_urls ''HTTP://rapidgator.net/x see http://example.com/y'' = [''http://example.com/y'']
   \<and> extract_links_from_text urlparse_hostname
        ''HTTP://rapidgator.net/x see http://example.com/y'' = {}"
proof (intro conjI)
  show "\<not> sublist ''http://'' s \<and> \<not> sublist ''https://'' s \<longrightarrow>
        extract_links_from_text up s = {}"
    by (simp add: extract_links_from_text_def findall_urls_no_scheme)
  show "extract_links_from_text up ''HTTP://rapidgator.net/x'' = {}" by code_simp
  show "extract_links_from_text up ''Https://rapidgator.net/x and hTTp://k2s.cc/y'' = {}"
    by code_simp
  show "extract_links_from_text urlparse_hostname ''http://rapidgator.net/x''
        = {''http://rapidgator.net/x''}" by code_simp
  show "\<forall>u \<in> set (findall_urls s).
         (prefix ''http://'' u \<or> prefix ''https://'' u) \<and> sublist u s"
    using findall_urls_scheme findall_urls_sublist by blast
  then show ex: "\<forall>u \<in> extract_links_from_text up s.
         (prefix ''http://'' u \<or> prefix ''https://'' u) \<and> sublist u s \<and>
         (\<exists>h. up u = Hostname h \<and> host_supported_spec h)"
    by (simp add: extract_links_eq)
  show "(\<forall>u. sublist u s \<and> (prefix ''http://'' u \<or> prefix ''https://'' u) \<longrightarrow>
             \<not> (\<exists>h. up u = Hostname h \<and> host_supported_spec h))
        \<longrightarrow> extract_links_from_text up s = {}"
    using ex by blast
  show "(\<forall>u \<in> set (findall_urls s). \<forall>h. up u = Hostname h \<longrightarrow> \<not> host_supported_spec h)
        \<longrightarrow> extract_links_from_text up s = {}"
    by (auto simp: extract_links_eq)
  show "findall_urls ''HTTP://rapidgator.net/x see http://example.com/y'' = [''http://example.com/y'']"
    by code_simp
  show "extract_links_from_text urlparse_hostname
        ''HTTP://rapidgator.net/x see http://example.com/y'' = {}"
    by code_simp
qed

theorem C10_uppercase_scheme_not_matched_witness:
  "extract_links_from_text urlparse_hostname ''HTTPS://uploaded.net/f HTTP://k2s.cc/g'' = {}
   \<and> extract_links_from_text urlparse_hostname ''https://uploaded.net/f HTTP://k2s.cc/g''
        = {''https://uploaded.net/f''}
   \<and> extract_links_from_text urlparse_hostname
        ''HTTP://uploaded.net/f or http://example.org/g'' = {}"
proof -
  have a: "\<not> sublist ''http://'' ''HTTPS://uploaded.net/f HTTP://k2s.cc/g''"
    unfolding str_in_sublist[symmetric] by code_simp
  have b: "\<not> sublist ''https://'' ''HTTPS://uploaded.net/f HTTP://k2s.cc/g''"
    unfolding str_in_sublist[symmetric] by code_simp
  have c: "extract_links_from_text urlparse_hostname ''https://uploaded.net/f HTTP://k2s.cc/g''
        = {''https://uploaded.net/f''}" by code_simp
  have f: "findall_urls ''HTTP://uploaded.net/f or http://example.org/g'' =
        [''http://example.org/g'']" by code_simp
  have h: "urlparse_hostname ''http://example.org/g'' = Hostname ''example.org''"
    by code_simp
  have "\<not> any_host_in (lower ''example.org'')" by code_simp
  then have n: "\<not> host_supported_spec ''example.org''" by (simp add: any_host_in_lower)
  from C10_uppercase_scheme_not_matched[of "''HTTPS://uploaded.net/f HTTP://k2s.cc/g''"
      urlparse_hostname] a b c
  have 1: "extract_links_from_text urlparse_hostname ''HTTPS://uploaded.net/f HTTP://k2s.cc/g'' = {}"
    by simp
  from C10_uppercase_scheme_not_matched[of "''HTTP://uploaded.net/f or http://example.org/g''"
      urlparse_hostname] f h n
  have 2: "extract_links_from_text urlparse_hostname
        ''HTTP://uploaded.net/f or http://example.org/g'' = {}"
    by simp
  from 1 2 c show ?thesis by simp
qed

section \<open>The resolver and the batch loop\<close>

lemma unlock_no_key:
  "\<not> has_api_key api_key \<Longrightarrow>
   unlock_with_alldebrid svc api_key link tr =
     (Inr \<lparr>success = False, data = None,
           err = Some (JStr ''No AllDebrid API key provided''),
           original_link = link, host_label = None\<rparr>, tr)"
  by (simp add: unlock_with_alldebrid_def)

lemma unlock_try_trace: "snd (unlock_try svc key link tr) = tr @ [NetCall key link]"
  by (simp add: unlock_try_def Let_def split: reply.splits sum.splits)

lemma unlock_try_outcome:
  "unlock_try svc key link tr = (Inr r, tr') \<Longrightarrow>
   original_link r = link \<and> host_label r = None \<and>
   ((success r \<and> data r \<noteq> None \<and> err r = None) \<or>
    (\<not> success r \<and> err r \<noteq> None \<and> data r = None))"
  by (auto simp: unlock_try_def Let_def split: reply.splits sum.splits if_splits)

lemma unlock_returns:
  "\<exists>r. unlock_with_alldebrid svc api_key link tr =
          (Inr r, if has_api_key api_key then tr @ [NetCall (the api_key) link] else tr) \<and>
        original_link r = link \<and>
        ((success r \<and> data r \<noteq> None \<and> err r = None) \<or>
         (\<not> success r \<and> err r \<noteq> None \<and> data r = None))"
proof (cases "has_api_key api_key")
  case False
  then show ?thesis by (simp add: unlock_no_key)
next
  case True
  obtain x tr' where u: "unlock_try svc (the api_key) link tr = (x, tr')"
    by (cases "unlock_try svc (the api_key) link tr")
  with unlock_try_trace[of svc "the api_key" link tr]
  have tr': "tr' = tr @ [NetCall (the api_key) link]" by simp
  show ?thesis
  proof (cases x)
    case (Inl e)
    with True u tr' show ?thesis by (simp add: unlock_with_alldebrid_def)
  next
    case (Inr r)
    with True u tr' unlock_try_outcome[of svc "the api_key" link tr r tr']
    show ?thesis by (simp add: unlock_with_alldebrid_def)
  qed
qed

lemma unlock_fails:
  "has_api_key api_key \<Longrightarrow> svc tr (the api_key) link = Fails e \<Longrightarrow>
   unlock_with_alldebrid svc api_key link tr =
     (Inr \<lparr>success = False, data = None, err = Some (JStr (str_of_exn e)),
           original_link = link, host_label = None\<rparr>,
      tr @ [NetCall (the api_key) link])"
  by (simp add: unlock_with_alldebrid_def unlock_try_def)

text \<open>One step of the loop, case by case.\<close>

declare batch_loop.simps(2) [simp del]

lemma batch_step_raises:
  "up link = Raises e \<Longrightarrow>
   batch_loop up svc api_key n i (link # links) results tr = (Inl e, tr)"
  by (simp add: batch_loop.simps(2))

lemma batch_step_invalid:
  "up link = NoHostname \<Longrightarrow>
   batch_loop up svc api_key n i (link # links) results tr =
     batch_loop up svc api_key n (Suc i) links
       (results @ [\<lparr>success = False, data = None, err = Some (JStr ''Invalid link format''),
                    original_link = link, host_label = None\<rparr>])
       (tr @ [Progress i])"
  by (simp add: batch_loop.simps(2) validate_link_def validate_link_try_def hostname_lower_def)

lemma batch_step_unlock:
  "up link = Hostname h \<Longrightarrow> any_host_in (lower h) \<Longrightarrow> has_api_key api_key \<Longrightarrow>
   unlock_with_alldebrid svc api_key link (tr @ [Progress i]) = (Inr r, tr2) \<Longrightarrow>
   batch_loop up svc api_key n i (link # links) results tr =
     (case show_unlock_result r of
        Some e \<Rightarrow> (Inl e, tr2)
      | None \<Rightarrow> batch_loop up svc api_key n (Suc i) links (results @ [r]) (pace n i tr2))"
  by (simp add: batch_loop.simps(2) validate_link_valid)

lemma batch_step_note:
  "up link = Hostname h \<Longrightarrow> \<not> (any_host_in (lower h) \<and> has_api_key api_key) \<Longrightarrow>
   batch_loop up svc api_key n i (link # links) results tr =
     batch_loop up svc api_key n (Suc i) links
       (results @ [\<lparr>success = False, data = None,
                    err = Some (JStr (if \<not> has_api_key api_key then ''No AllDebrid API key''
                                      else ''Unsupported host'')),
                    original_link = link, host_label = Some (lower h)\<rparr>])
       (pace n i (tr @ [Progress i]))"
  by (auto simp: batch_loop.simps(2) validate_link_valid)

text \<open>What the loop returns extends the results it started from by one outcome per
  link, in order, each either a success with a payload or a failure with an error.\<close>

lemma batch_loop_outcomes:
  "batch_loop up svc api_key n i links results tr = (Inr os, tr') \<Longrightarrow>
   \<exists>new. os = results @ new \<and> map original_link new = links \<and>
     (\<forall>r \<in> set new. (success r \<and> data r \<noteq> None \<and> err r = None) \<or>
                      (\<not> success r \<and> err r \<noteq> None \<and> data r = None))"
proof (induction links arbitrary: i results tr)
  case Nil
  then show ?case by simp
next
  case (Cons link links)
  show ?case
  proof (cases "up link")
    case (Raises e)
    with Cons.prems show ?thesis by (simp add: batch_step_raises)
  next
    case NoHostname
    from Cons.prems[unfolded batch_step_invalid[of up link, OF NoHostname]] Cons.IH
    obtain new where "os = (results @ [\<lparr>success = False, data = None,
          err = Some (JStr ''Invalid link format''), original_link = link,
          host_label = None\<rparr>]) @ new" "map original_link new = links"
      "\<forall>r \<in> set new. (success r \<and> data r \<noteq> None \<and> err r = None) \<or>
                      (\<not> success r \<and> err r \<noteq> None \<and> data r = None)"
      by blast
    then show ?thesis by auto
  next
    case (Hostname h)
    show ?thesis
    proof (cases "any_host_in (lower h) \<and> has_api_key api_key")
      case True
      from unlock_returns[of svc api_key link "tr @ [Progress i]"]
      obtain r tr2 where u: "unlock_with_alldebrid svc api_key link (tr @ [Progress i]) = (Inr r, tr2)"
        and r: "original_link r = link"
          "(success r \<and> data r \<noteq> None \<and> err r = None) \<or>
           (\<not> success r \<and> err r \<noteq> None \<and> data r = None)"
        by blast
      from True have a: "any_host_in (lower h)" and k: "has_api_key api_key" by simp_all
      note step = batch_step_unlock[of up link h, OF Hostname a k u]
      show ?thesis
      proof (cases "show_unlock_result r")
        case (Some e)
        with Cons.prems step show ?thesis by simp
      next
        case None
        with Cons.prems step
        have "batch_loop up svc api_key n (Suc i) links (results @ [r]) (pace n i tr2) = (Inr os, tr')"
          by simp
        from Cons.IH[OF this] obtain new where "os = (results @ [r]) @ new"
          "map original_link new = links"
          "\<forall>r \<in> set new. (success r \<and> data r \<noteq> None \<and> err r = None) \<or>
                      (\<not> success r \<and> err r \<noteq> None \<and> data r = None)"
          by blast
        with r show ?thesis by auto
      qed
    next
      case False
      from Cons.prems[unfolded batch_step_note[of up link h, OF Hostname False]] Cons.IH
      obtain new where "os = (results @ [\<lparr>success = False, data = None,
                    err = Some (JStr (if \<not> has_api_key api_key then ''No AllDebrid API key''
                                      else ''Unsupported host'')),
                    original_link = link, host_label = Some (lower h)\<rparr>]) @ new"
        "map original_link new = links"
        "\<forall>r \<in> set new. (success r \<and> data r \<noteq> None \<and> err r = None) \<or>
                      (\<not> success r \<and> err r \<noteq> None \<and> data r = None)"
        by blast
      then show ?thesis by auto
    qed
  qed
qed










section \<open>Claims about the batch pipeline\<close>

text \<open>
  Claim C1 asks that \<^verbatim>\<open>process_links_batch\<close> return one outcome per link, in order,
  for every list of links. The code does not: on the link \<^verbatim>\<open>http://[::1\<close> the parser
  raises \<^verbatim>\<open>ValueError\<close> inside the progress line of line 145, which no \<^verbatim>\<open>try\<close>
  surrounds, so the function raises and returns no outcome, with any service, any key
  and any other links. \<^verbatim>\<open>validate_link\<close>, which the loop calls only after that line,
  catches the same exception and calls the link invalid. The progress output of lines
  163-168 is as unguarded: when the service answers success without a payload,
  \<^verbatim>\<open>data.get\<close> raises \<^verbatim>\<open>AttributeError\<close> and the batch is lost.
\<close>

theorem C1_batch_raises_on_unparsable_link:
  "process_links_batch urlparse_hostname svc api_key [''http://[::1''] tr =
     (Inl (ValueError ''Invalid IPv6 URL''), tr)
   \<and> validate_link urlparse_hostname ''http://[::1'' =
     Inr \<lparr>url = ''http://[::1'', host = ''invalid'', valid = False, supported = False,
          host_type = None, error = Some ''Invalid IPv6 URL''\<rparr>
   \<and> process_links_batch urlparse_hostname svc_no_data (Some ''key'')
       [''http://rapidgator.net/a''] [] =
     (Inl (AttributeError (quoted ''NoneType'' @ '' object has no attribute '' @ quoted ''get'')),
      [Progress 1, NetCall ''key'' ''http://rapidgator.net/a''])"
proof (intro conjI)
  have e: "urlparse_hostname ''http://[::1'' = Raises (ValueError ''Invalid IPv6 URL'')"
    by code_simp
  then show "process_links_batch urlparse_hostname svc api_key [''http://[::1''] tr =
     (Inl (ValueError ''Invalid IPv6 URL''), tr)"
    by (simp add: process_links_batch_def batch_step_raises)
  from e show "validate_link urlparse_hostname ''http://[::1'' =
     Inr \<lparr>url = ''http://[::1'', host = ''invalid'', valid = False, supported = False,
          host_type = None, error = Some ''Invalid IPv6 URL''\<rparr>"
    by (simp add: validate_link_def validate_link_try_def hostname_lower_def)
  show "process_links_batch urlparse_hostname svc_no_data (Some ''key'')
       [''http://rapidgator.net/a''] [] =
     (Inl (AttributeError (quoted ''NoneType'' @ '' object has no attribute '' @ quoted ''get'')),
      [Progress 1, NetCall ''key'' ''http://rapidgator.net/a''])"
    by code_simp
qed

theorem C1_batch_raises_on_unparsable_link_witness:
  "process_links_batch urlparse_hostname svc_unlocks (Some ''key'') [''http://[::1''] [] =
     (Inl (ValueError ''Invalid IPv6 URL''), [])"
  using C1_batch_raises_on_unparsable_link[of svc_unlocks "Some ''key''" "[]"] by simp

text \<open>
  Claim C2 asks that a fault raised while one link is processed be turned into a failure
  outcome at that link's boundary inside \<^verbatim>\<open>process_links_batch\<close>, so that the other
  links still get their outcomes. The code does not: the loop body has no \<^verbatim>\<open>try\<close>. On
  the batch below the parser raises on the second link inside the progress line of line
  145; the function raises, and the outcome of the first link, already resolved, is
  lost with those of the others. \<^verbatim>\<open>validate_link\<close> catches the same exception and calls
  the link invalid, and a fault of the second link's resolution, caught inside
  \<^verbatim>\<open>unlock_with_alldebrid\<close>, does leave the first and third outcomes in place: the
  isolation is what the code sets out to do and misses at line 145, the defect of
  claim C1.
\<close>

theorem C2_batch_aborted_by_one_link:
  "process_links_batch urlparse_hostname svc_unlocks (Some ''key'')
     [''http://rapidgator.net/a'', ''http://[::1'', ''http://uploaded.net/c''] []
   = (Inl (ValueError ''Invalid IPv6 URL''),
      [Progress 1, NetCall ''key'' ''http://rapidgator.net/a'', Sleep 1])
   \<and> validate_link urlparse_hostname ''http://[::1'' =
     Inr \<lparr>url = ''http://[::1'', host = ''invalid'', valid = False, supported = False,
          host_type = None, error = Some ''Invalid IPv6 URL''\<rparr>
   \<and> process_links_batch urlparse_hostname svc_flaky (Some ''key'')
     [''http://rapidgator.net/a'', ''http://uploaded.net/b'', ''http://k2s.cc/c''] []
   = (Inr [\<lparr>success = True,
             data = Some (JObj [(''filename'', JStr ''file.bin''), (''size'', JInt 1048576),
                                (''link'', JStr ''https://dl.example/file.bin'')]),
             err = None, original_link = ''http://rapidgator.net/a'', host_label = None\<rparr>,
           \<lparr>success = False, data = None, err = Some (JStr ''Read timed out.''),
             original_link = ''http://uploaded.net/b'', host_label = None\<rparr>,
           \<lparr>success = True,
             data = Some (JObj [(''filename'', JStr ''file.bin''), (''size'', JInt 1048576),
                                (''link'', JStr ''https://dl.example/file.bin'')]),
             err = None, original_link = ''http://k2s.cc/c'', host_label = None\<rparr>],
      [Progress 1, NetCall ''key'' ''http://rapidgator.net/a'', Sleep 1,
       Progress 2, NetCall ''key'' ''http://uploaded.net/b'', Sleep 1,
       Progress 3, NetCall ''key'' ''http://k2s.cc/c''])"
  by code_simp

text \<open>
  Claim C3 asks that every outcome have its payload present when it is a success and its
  error message present when it is a failure. The code does not see to it: line 119
  stores \<^verbatim>\<open>data.get('data')\<close>, which is \<^verbatim>\<open>None\<close> when the service answers success
  without a payload, and the default of line 125 fills in a missing error but lets a null
  one through. The first outcome below is one \<^verbatim>\<open>unlock_with_alldebrid\<close> returns, the
  second one \<^verbatim>\<open>process_links_batch\<close> returns in its list; neither has the field the
  claim asks for.
\<close>

theorem C3_outcome_without_payload_or_error:
  "unlock_with_alldebrid svc_no_data (Some ''key'') ''http://rapidgator.net/a'' [] =
     (Inr \<lparr>success = True, data = Some JNull, err = None,
           original_link = ''http://rapidgator.net/a'', host_label = None\<rparr>,
      [NetCall ''key'' ''http://rapidgator.net/a''])
   \<and> \<not> outcome_exclusive \<lparr>success = True, data = Some JNull, err = None,
           original_link = ''http://rapidgator.net/a'', host_label = None\<rparr>
   \<and> process_links_batch urlparse_hostname svc_null_error (Some ''key'')
       [''http://rapidgator.net/a''] [] =
     (Inr [\<lparr>success = False, data = None, err = Some JNull,
            original_link = ''http://rapidgator.net/a'', host_label = None\<rparr>],
      [Progress 1, NetCall ''key'' ''http://rapidgator.net/a''])
   \<and> \<not> outcome_exclusive \<lparr>success = False, data = None, err = Some JNull,
           original_link = ''http://rapidgator.net/a'', host_label = None\<rparr>"
  by code_simp

text \<open>
  Claim C5. Without a key (\<^verbatim>\<open>None\<close> or the empty string) \<^verbatim>\<open>unlock_with_alldebrid\<close>
  returns the failure \<^verbatim>\<open>No AllDebrid API key provided\<close> and leaves the trace as it was:
  no request is sent. \<^verbatim>\<open>process_links_batch\<close> on one valid link of a supported host
  then returns the single failure \<^verbatim>\<open>No AllDebrid API key\<close>, and the only event is the
  progress line: no request and no pause.
\<close>

theorem C5_no_credential_no_request:
  "(\<not> has_api_key api_key \<longrightarrow>
      unlock_with_alldebrid svc api_key link tr =
        (Inr \<lparr>success = False, data = None,
              err = Some (JStr ''No AllDebrid API key provided''),
              original_link = link, host_label = None\<rparr>, tr))
   \<and> (\<not> has_api_key api_key \<and> up link = Hostname h \<and> host_supported_spec h \<longrightarrow>
      process_links_batch up svc api_key [link] tr =
        (Inr [\<lparr>success = False, data = None, err = Some (JStr ''No AllDebrid API key''),
               original_link = link, host_label = Some (lower h)\<rparr>],
         tr @ [Progress 1]))
   \<and> has_api_key None = False \<and> has_api_key (Some []) = False"
proof (intro conjI impI)
  assume "\<not> has_api_key api_key"
  then show "unlock_with_alldebrid svc api_key link tr =
        (Inr \<lparr>success = False, data = None,
              err = Some (JStr ''No AllDebrid API key provided''),
              original_link = link, host_label = None\<rparr>, tr)"
    by (rule unlock_no_key)
next
  assume a: "\<not> has_api_key api_key \<and> up link = Hostname h \<and> host_supported_spec h"
  then have h: "up link = Hostname h" and n: "\<not> (any_host_in (lower h) \<and> has_api_key api_key)"
    by simp_all
  from a batch_step_note[of up link h, OF h n, of svc 1 1 "[]" "[]" tr]
  show "process_links_batch up svc api_key [link] tr =
        (Inr [\<lparr>success = False, data = None, err = Some (JStr ''No AllDebrid API key''),
               original_link = link, host_label = Some (lower h)\<rparr>],
         tr @ [Progress 1])"
    by (simp add: process_links_batch_def pace_def)
qed (simp_all add: has_api_key_def)

theorem C5_no_credential_no_request_witness:
  "process_links_batch urlparse_hostname svc_unlocks None [''http://rapidgator.net/x''] [] =
     (Inr [\<lparr>success = False, data = None, err = Some (JStr ''No AllDebrid API key''),
            original_link = ''http://rapidgator.net/x'',
            host_label = Some ''rapidgator.net''\<rparr>],
      [Progress 1])
   \<and> unlock_with_alldebrid svc_unlocks None ''http://rapidgator.net/x'' [] =
     (Inr \<lparr>success = False, data = None,
           err = Some (JStr ''No AllDebrid API key provided''),
           original_link = ''http://rapidgator.net/x'', host_label = None\<rparr>, [])"
proof -
  have h: "urlparse_hostname ''http://rapidgator.net/x'' = Hostname ''rapidgator.net''"
    by code_simp
  have "any_host_in (lower ''rapidgator.net'')" by code_simp
  then have s: "host_supported_spec ''rapidgator.net''" by (simp only: any_host_in_lower)
  have l: "lower ''rapidgator.net'' = ''rapidgator.net''" by code_simp
  have k: "\<not> has_api_key None" by (simp add: has_api_key_def)
  from C5_no_credential_no_request[of None svc_unlocks "''http://rapidgator.net/x''" "[]"
      urlparse_hostname "''rapidgator.net''"] h s l k
  show ?thesis by simp
qed



section \<open>Claims about the summary\<close>

lemma display_loop_counts:
  "\<forall>r \<in> set results. printable up r \<Longrightarrow>
   display_loop up results s f =
     Inr (s + length (filter success results), f + length (filter (\<lambda>r. \<not> success r) results))"
  by (induction results arbitrary: s f) (auto simp: printable_def)

lemma display_loop_returned:
  "display_loop up results s f = Inr (s', f') \<Longrightarrow>
   s' = s + length (filter success results) \<and>
   f' = f + length (filter (\<lambda>r. \<not> success r) results) \<and>
   (\<forall>r \<in> set results. printable up r)"
proof (induction results arbitrary: s f)
  case Nil
  then show ?case by simp
next
  case (Cons r results)
  show ?case
  proof (cases "success r")
    case True
    with Cons.prems have p: "show_success r = None"
      and rest: "display_loop up results (s + 1) f = Inr (s', f')"
      by (auto split: option.splits)
    from Cons.IH[OF rest] True p show ?thesis by (simp add: printable_def)
  next
    case False
    with Cons.prems have p: "show_failure up r = None"
      and rest: "display_loop up results s (f + 1) = Inr (s', f')"
      by (auto split: option.splits)
    from Cons.IH[OF rest] False p show ?thesis by (simp add: printable_def)
  qed
qed

lemma display_results_counts:
  "display_results up results = Inr sm \<Longrightarrow>
   successful sm = length (filter success results) \<and>
   failed sm = length (filter (\<lambda>r. \<not> success r) results)"
proof -
  assume "display_results up results = Inr sm"
  then obtain s f where l: "display_loop up results 0 0 = Inr (s, f)"
    and sm: "successful sm = s" "failed sm = f"
    by (auto simp: display_results_def split: sum.splits prod.splits)
  from display_loop_returned[OF l] sm show ?thesis by simp
qed

text \<open>
  Claim C9 asks for the summary of every list of outcomes. The counters and the rate are
  as the claim says whenever \<^verbatim>\<open>display_results\<close> reaches its last lines: the empty list
  gives the rate 0, three successes and one failure give 3, 1 and 75.0. It does not
  reach them for every list: the function has no \<^verbatim>\<open>try\<close>. Line 284 gives a missing link
  a default and then slices it, and a null link, which the default does not cover,
  raises \<^verbatim>\<open>TypeError\<close>; the outcome is one \<^verbatim>\<open>process_links_batch\<close> returns when the
  service sends it. Line 290 parses the original link of a failure as line 145 does, and
  raises on the same links.
\<close>

theorem C9_display_results_raises:
  "display_results urlparse_hostname
     [\<lparr>success = True,
       data = Some (JObj [(''filename'', JStr ''file.bin''), (''size'', JInt 1048576),
                          (''link'', JNull)]),
       err = None, original_link = ''http://rapidgator.net/a'', host_label = None\<rparr>]
     = Inl (TypeError (quoted ''NoneType'' @ '' object is not subscriptable''))
   \<and> process_links_batch urlparse_hostname svc_no_link (Some ''key'')
       [''http://rapidgator.net/a''] []
     = (Inr [\<lparr>success = True,
              data = Some (JObj [(''filename'', JStr ''file.bin''), (''size'', JInt 1048576),
                                 (''link'', JNull)]),
              err = None, original_link = ''http://rapidgator.net/a'', host_label = None\<rparr>],
        [Progress 1, NetCall ''key'' ''http://rapidgator.net/a''])
   \<and> display_results urlparse_hostname
     [\<lparr>success = False, data = None, err = Some (JStr ''Invalid link format''),
       original_link = ''http://[::1'', host_label = None\<rparr>]
     = Inl (ValueError ''Invalid IPv6 URL'')
   \<and> display_results urlparse_hostname [] =
       Inr \<lparr>successful = 0, failed = 0, success_rate = ''0%''\<rparr>
   \<and> display_results urlparse_hostname
     [\<lparr>success = True, data = Some unlocked_payload, err = None,
       original_link = ''http://rapidgator.net/a'', host_label = None\<rparr>,
      \<lparr>success = True, data = Some unlocked_payload, err = None,
       original_link = ''http://uploaded.net/b'', host_label = None\<rparr>,
      \<lparr>success = True, data = Some unlocked_payload, err = None,
       original_link = ''http://k2s.cc/c'', host_label = None\<rparr>,
      \<lparr>success = False, data = None, err = Some (JStr ''Unsupported host''),
       original_link = ''http://example.com/d'', host_label = Some ''example.com''\<rparr>]
     = Inr \<lparr>successful = 3, failed = 1, success_rate = ''75.0%''\<rparr>"
  by code_simp

end
